theory Spec2Isabelle
  imports Main "HOL-Library.Word"
begin

section \<open>The collaborators of the writer\<close>

text \<open>
  \<^verbatim>\<open>tfrecord_writer.cc\<close> drives two objects of the TensorFlow platform layer: the
  \<^verbatim>\<open>WritableFile\<close> it obtains from \<^verbatim>\<open>Env::Default()->NewWritableFile\<close> (the sink) and the
  \<^verbatim>\<open>io::RecordWriter\<close> it builds on top of that file (the framing and compression
  filter). Of a \<^verbatim>\<open>tensorflow::Status\<close> the file reads only \<^verbatim>\<open>ok()\<close> and
  \<^verbatim>\<open>error_message()\<close>.
\<close>

datatype status = OK | Error string

fun ok :: "status \<Rightarrow> bool" where
  "ok OK = True"
| "ok (Error m) = False"

type_synonym byte = "8 word"

type_synonym file_id = nat

text \<open>
  Every call that crosses into a collaborator is recorded, oldest first. The two
  \<open>Destructor\<close> events are what \<^verbatim>\<open>unique_ptr::reset\<close> runs on a non-null pointer:
  the destructor of the pointee, which is where an object that was never closed
  finalizes itself (line 64: "Writer depends on file during close for zlib flush, so
  destruct first").
\<close>

datatype 'o call =
    NewWritableFile string
  | NewRecordWriter file_id 'o
  | RW_WriteRecord "byte list"
  | RW_Flush
  | RW_Close
  | RW_Destructor
  | File_Close
  | File_Destructor

text \<open>
  What the collaborators answer is not decided by this file, so it is a parameter.
  \<^verbatim>\<open>NewWritableFile\<close> yields either an error message or the new file;
  \<^verbatim>\<open>CreateRecordWriterOptions\<close> returns an options value and has no status;
  the status of each later call may depend on everything that was called before.
\<close>

record 'o env =
  NewWritableFile_result :: "string \<Rightarrow> string + file_id"
  CreateRecordWriterOptions :: "string \<Rightarrow> 'o"
  WriteRecord_status :: "'o call list \<Rightarrow> byte list \<Rightarrow> status"
  Flush_status :: "'o call list \<Rightarrow> status"
  Close_status :: "'o call list \<Rightarrow> status"
  FileClose_status :: "'o call list \<Rightarrow> status"

record 'o world =
  trace :: "'o call list"
  log :: "string list"

definition emit :: "'o call \<Rightarrow> 'o world \<Rightarrow> 'o world" where
  "emit c w = w\<lparr>trace := trace w @ [c]\<rparr>"

section \<open>TFRecordWriter\<close>

text \<open>
  The \<^verbatim>\<open>RecordWriter\<close> object keeps the raw pointer \<^verbatim>\<open>file_.get()\<close> and the options
  it was built with. The members \<^verbatim>\<open>file_\<close> and \<^verbatim>\<open>writer_\<close> are \<^verbatim>\<open>unique_ptr\<close>s;
  \<open>None\<close> is \<^verbatim>\<open>nullptr\<close>. (A name cannot end in an underscore here, hence
  \<open>file_ptr\<close> and \<open>writer_ptr\<close>.)
\<close>

record 'o RecordWriter =
  rw_dest :: file_id
  rw_options :: 'o

record 'o TFRecordWriter =
  file_ptr :: "file_id option"
  writer_ptr :: "'o RecordWriter option"

type_synonym 'o state = "'o TFRecordWriter \<times> 'o world"

text \<open>Lines 41-61. \<open>None\<close> is the \<^verbatim>\<open>nullptr\<close> of line 49.\<close>

definition New :: "'o env \<Rightarrow> string \<Rightarrow> string \<Rightarrow> 'o TFRecordWriter option \<times> 'o world" where
  "New e filename compression_type =
     (case NewWritableFile_result e filename of
        Inl msg \<Rightarrow> (None, \<lparr>trace = [NewWritableFile filename], log = [msg]\<rparr>)
      | Inr file \<Rightarrow>
          (let opts = CreateRecordWriterOptions e compression_type;
               rw = \<lparr>rw_dest = file, rw_options = opts\<rparr>
           in (Some \<lparr>file_ptr = Some file, writer_ptr = Some rw\<rparr>,
               \<lparr>trace = [NewWritableFile filename, NewRecordWriter file opts], log = []\<rparr>)))"

text \<open>\<^verbatim>\<open>writer_.reset()\<close> and \<^verbatim>\<open>file_.reset()\<close>: nothing happens on a null pointer.\<close>

fun reset_writer :: "'o state \<Rightarrow> 'o state" where
  "reset_writer (this, w) =
     (case writer_ptr this of
        None \<Rightarrow> (this, w)
      | Some rw \<Rightarrow> (this\<lparr>writer_ptr := None\<rparr>, emit RW_Destructor w))"

fun reset_file :: "'o state \<Rightarrow> 'o state" where
  "reset_file (this, w) =
     (case file_ptr this of
        None \<Rightarrow> (this, w)
      | Some f \<Rightarrow> (this\<lparr>file_ptr := None\<rparr>, emit File_Destructor w))"

text \<open>Lines 63-67, the destructor.\<close>

definition destructor :: "'o state \<Rightarrow> 'o state" where
  "destructor s = reset_file (reset_writer s)"

text \<open>Lines 69-75.\<close>

fun WriteRecord :: "'o env \<Rightarrow> byte list \<Rightarrow> 'o state \<Rightarrow> bool \<times> 'o state" where
  "WriteRecord e rec (this, w) =
     (case writer_ptr this of
        None \<Rightarrow> (False, this, w)
      | Some rw \<Rightarrow>
          (ok (WriteRecord_status e (trace w) rec), this, emit (RW_WriteRecord rec) w))"

text \<open>Lines 77-83.\<close>

fun Flush :: "'o env \<Rightarrow> 'o state \<Rightarrow> bool \<times> 'o state" where
  "Flush e (this, w) =
     (case writer_ptr this of
        None \<Rightarrow> (False, this, w)
      | Some rw \<Rightarrow> (ok (Flush_status e (trace w)), this, emit RW_Flush w))"

text \<open>
  Lines 85-103. Each of the two blocks either returns \<^verbatim>\<open>false\<close> at once (\<open>Inl\<close>) or
  falls through to what follows it (\<open>Inr\<close>).
\<close>

fun Close_writer :: "'o env \<Rightarrow> 'o state \<Rightarrow> 'o state + 'o state" where
  "Close_writer e (this, w) =
     (case writer_ptr this of
        None \<Rightarrow> Inr (this, w)
      | Some rw \<Rightarrow>
          (if \<not> ok (Close_status e (trace w)) then Inl (this, emit RW_Close w)
           else Inr (reset_writer (this, emit RW_Close w))))"

fun Close_file :: "'o env \<Rightarrow> 'o state \<Rightarrow> 'o state + 'o state" where
  "Close_file e (this, w) =
     (case file_ptr this of
        None \<Rightarrow> Inr (this, w)
      | Some f \<Rightarrow>
          (if \<not> ok (FileClose_status e (trace w)) then Inl (this, emit File_Close w)
           else Inr (reset_file (this, emit File_Close w))))"

definition Close :: "'o env \<Rightarrow> 'o state \<Rightarrow> bool \<times> 'o state" where
  "Close e s =
     (case Close_writer e s of
        Inl s1 \<Rightarrow> (False, s1)
      | Inr s1 \<Rightarrow>
          (case Close_file e s1 of
             Inl s2 \<Rightarrow> (False, s2)
           | Inr s2 \<Rightarrow> (True, s2)))"

subsection \<open>Sequences of calls\<close>

datatype op = OpWriteRecord "byte list" | OpFlush | OpClose

fun step :: "'o env \<Rightarrow> op \<Rightarrow> 'o state \<Rightarrow> bool \<times> 'o state" where
  "step e (OpWriteRecord rec) s = WriteRecord e rec s"
| "step e OpFlush s = Flush e s"
| "step e OpClose s = Close e s"

fun run :: "'o env \<Rightarrow> op list \<Rightarrow> 'o state \<Rightarrow> bool list \<times> 'o state" where
  "run e [] s = ([], s)"
| "run e (x # xs) s =
     (case step e x s of
        (r, s1) \<Rightarrow> (case run e xs s1 of (rs, s2) \<Rightarrow> (r # rs, s2)))"

subsection \<open>Lifecycle states\<close>

definition is_Open :: "'o TFRecordWriter \<Rightarrow> bool" where
  "is_Open this = (writer_ptr this \<noteq> None \<and> file_ptr this \<noteq> None)"

definition is_Closed :: "'o TFRecordWriter \<Rightarrow> bool" where
  "is_Closed this = (writer_ptr this = None \<and> file_ptr this = None)"

subsection \<open>The order of finalization in a trace\<close>

text \<open>
  \<open>sink_after_filter cl rel cs\<close> scans a trace: \<open>cl\<close> says that the filter's
  \<^verbatim>\<open>Close\<close> was called, \<open>rel\<close> that the filter object was destroyed. The file may be
  closed only once both have happened, and destroyed only once the filter object is gone.
\<close>

fun sink_after_filter :: "bool \<Rightarrow> bool \<Rightarrow> 'o call list \<Rightarrow> bool" where
  "sink_after_filter cl rel [] = True"
| "sink_after_filter cl rel (RW_Close # cs) = sink_after_filter True rel cs"
| "sink_after_filter cl rel (RW_Destructor # cs) = sink_after_filter cl True cs"
| "sink_after_filter cl rel (File_Close # cs) = (cl \<and> rel \<and> sink_after_filter cl rel cs)"
| "sink_after_filter cl rel (File_Destructor # cs) = (rel \<and> sink_after_filter cl rel cs)"
| "sink_after_filter cl rel (NewWritableFile v # cs) = sink_after_filter cl rel cs"
| "sink_after_filter cl rel (NewRecordWriter f opts # cs) = sink_after_filter cl rel cs"
| "sink_after_filter cl rel (RW_WriteRecord r # cs) = sink_after_filter cl rel cs"
| "sink_after_filter cl rel (RW_Flush # cs) = sink_after_filter cl rel cs"

subsection \<open>The compression selectors the specification names\<close>

text \<open>
  The three strings of the specification's section 6. The source compares
  \<^verbatim>\<open>compression_type\<close> with nothing: it hands the string to
  \<^verbatim>\<open>CreateRecordWriterOptions\<close>.
\<close>

definition recognized_compression :: "string \<Rightarrow> bool" where
  "recognized_compression ct = (ct = '''' \<or> ct = ''GZIP'' \<or> ct = ''ZLIB'')"

section \<open>Collaborators for concrete runs\<close>

text \<open>A platform on which every call succeeds; the options are the selector itself.\<close>

definition ok_env :: "string env" where
  "ok_env = \<lparr>NewWritableFile_result = (\<lambda>fn. Inr 0),
             CreateRecordWriterOptions = (\<lambda>ct. ct),
             WriteRecord_status = (\<lambda>tr r. OK),
             Flush_status = (\<lambda>tr. OK),
             Close_status = (\<lambda>tr. OK),
             FileClose_status = (\<lambda>tr. OK)\<rparr>"

text \<open>The file cannot be created.\<close>

definition no_file_env :: "string env" where
  "no_file_env = ok_env\<lparr>NewWritableFile_result := (\<lambda>fn. Inl ''permission denied'')\<rparr>"

text \<open>The filter closes, the file's \<^verbatim>\<open>Close\<close> fails every time.\<close>

definition sink_close_fails_env :: "string env" where
  "sink_close_fails_env = ok_env\<lparr>FileClose_status := (\<lambda>tr. Error ''close failed'')\<rparr>"

text \<open>The first \<^verbatim>\<open>WriteRecord\<close> of the filter fails, the later ones succeed.\<close>

fun is_write :: "'o call \<Rightarrow> bool" where
  "is_write (RW_WriteRecord r) = True"
| "is_write c = False"

definition write_fails_once_env :: "string env" where
  "write_fails_once_env =
     ok_env\<lparr>WriteRecord_status :=
              (\<lambda>tr r. if list_ex is_write tr then OK else Error ''no space left'')\<rparr>"

section \<open>The frame codec\<close>

text \<open>
  Modelled from the spec: the encoding of one record is done inside
  \<^verbatim>\<open>tensorflow::io::RecordWriter::WriteRecord\<close>, which line 73 calls and which is not
  among the sources. The specification (sections 3, 4.1 and 6) gives the layout
  \<^verbatim>\<open>[u64 length][u32 masked_crc_of_length][payload bytes][u32 masked_crc_of_payload]\<close>,
  all integers little-endian. It names CRC-32C and a "rotate and offset" masking without
  fixing their constants, so both are parameters.
\<close>

definition le_bytes :: "nat \<Rightarrow> 'a::len word \<Rightarrow> byte list" where
  "le_bytes n x = map (\<lambda>i. ucast (drop_bit (8 * i) x)) [0..<n]"

fun le_value :: "byte list \<Rightarrow> nat" where
  "le_value [] = 0"
| "le_value (b # bs) = unat b + 256 * le_value bs"

definition Encode :: "(byte list \<Rightarrow> 32 word) \<Rightarrow> (32 word \<Rightarrow> 32 word) \<Rightarrow> byte list \<Rightarrow> byte list" where
  "Encode crc32c masked payload =
     (let len = le_bytes 8 (of_nat (length payload) :: 64 word)
      in len @ le_bytes 4 (masked (crc32c len)) @ payload @ le_bytes 4 (masked (crc32c payload)))"

section \<open>Invariants and sample states\<close>

text \<open>A filter handle is never held without the file handle it writes to.\<close>

definition handles_inv :: "'o TFRecordWriter \<Rightarrow> bool" where
  "handles_inv this = (writer_ptr this \<noteq> None \<longrightarrow> file_ptr this \<noteq> None)"

text \<open>
  The trace is in order, and a writer whose filter handle is null has had the filter
  closed and destroyed.
\<close>

definition order_inv :: "'o state \<Rightarrow> bool" where
  "order_inv s =
     (sink_after_filter False False (trace (snd s)) \<and>
      (writer_ptr (fst s) = None \<longrightarrow>
         RW_Close \<in> set (trace (snd s)) \<and> RW_Destructor \<in> set (trace (snd s))))"

text \<open>
  The writer that \<open>New\<close> returns for \<^verbatim>\<open>("out.tfrecord", "GZIP")\<close> on \<open>ok_env\<close>, and the
  same writer after a successful \<open>Close\<close>.
\<close>

definition sample_writer :: "string TFRecordWriter" where
  "sample_writer = \<lparr>file_ptr = Some 0, writer_ptr = Some \<lparr>rw_dest = 0, rw_options = ''GZIP''\<rparr>\<rparr>"

definition sample_world :: "string world" where
  "sample_world = \<lparr>trace = [NewWritableFile ''out.tfrecord'', NewRecordWriter 0 ''GZIP''], log = []\<rparr>"

definition closed_writer :: "string TFRecordWriter" where
  "closed_writer = \<lparr>file_ptr = None, writer_ptr = None\<rparr>"

definition closed_world :: "string world" where
  "closed_world = \<lparr>trace = [NewWritableFile ''out.tfrecord'', NewRecordWriter 0 ''GZIP'',
                            RW_Close, RW_Destructor, File_Close, File_Destructor], log = []\<rparr>"

section \<open>Basic facts\<close>

lemma trace_emit [simp]: "trace (emit c w) = trace w @ [c]"
  by (simp add: emit_def)

lemma log_emit [simp]: "log (emit c w) = log w"
  by (simp add: emit_def)

lemma New_Some:
  assumes "New e fn ct = (Some t, w)"
  shows "\<exists>f. NewWritableFile_result e fn = Inr f
           \<and> t = \<lparr>file_ptr = Some f,
                   writer_ptr = Some \<lparr>rw_dest = f, rw_options = CreateRecordWriterOptions e ct\<rparr>\<rparr>
           \<and> w = \<lparr>trace = [NewWritableFile fn, NewRecordWriter f (CreateRecordWriterOptions e ct)],
                   log = []\<rparr>"
  using assms by (auto simp: New_def Let_def split: sum.splits)

lemma New_sample: "New ok_env ''out.tfrecord'' ''GZIP'' = (Some sample_writer, sample_world)"
  by (simp add: New_def Let_def ok_env_def sample_writer_def sample_world_def)

lemma New_sample_sink_fails:
  "New sink_close_fails_env ''out.tfrecord'' ''GZIP'' = (Some sample_writer, sample_world)"
  by (simp add: New_def Let_def ok_env_def sink_close_fails_env_def sample_writer_def
      sample_world_def)

subsection \<open>A closed writer\<close>

lemma Close_Closed: "is_Closed this \<Longrightarrow> Close e (this, w) = (True, this, w)"
  by (simp add: is_Closed_def Close_def)

lemma WriteRecord_Closed: "writer_ptr this = None \<Longrightarrow> WriteRecord e r (this, w) = (False, this, w)"
  by simp

lemma Flush_Closed: "writer_ptr this = None \<Longrightarrow> Flush e (this, w) = (False, this, w)"
  by simp

lemma Close_True_is_Closed:
  assumes "Close e s = (True, this, w)"
  shows "is_Closed this"
proof -
  obtain t0 w0 where s: "s = (t0, w0)" by (cases s)
  from assms show ?thesis
    unfolding s Close_def is_Closed_def
    by (auto split: sum.splits option.splits if_splits)
qed

lemma step_Closed: "is_Closed this \<Longrightarrow> step e x (this, w) = (x = OpClose, this, w)"
  by (cases x) (simp_all add: Close_Closed, simp_all add: is_Closed_def)

lemma run_Closed: "is_Closed this \<Longrightarrow> run e ops (this, w) = (map (\<lambda>x. x = OpClose) ops, this, w)"
  by (induction ops) (simp_all add: step_Closed)

subsection \<open>An open writer\<close>

lemma Close_Open:
  assumes "is_Open t"
  shows "Close e (t, w) =
     (if \<not> ok (Close_status e (trace w)) then (False, t, w\<lparr>trace := trace w @ [RW_Close]\<rparr>)
      else if \<not> ok (FileClose_status e (trace w @ [RW_Close, RW_Destructor]))
      then (False, t\<lparr>writer_ptr := None\<rparr>, w\<lparr>trace := trace w @ [RW_Close, RW_Destructor, File_Close]\<rparr>)
      else (True, t\<lparr>writer_ptr := None, file_ptr := None\<rparr>,
            w\<lparr>trace := trace w @ [RW_Close, RW_Destructor, File_Close, File_Destructor]\<rparr>))"
  using assms unfolding is_Open_def Close_def
  by (auto simp: emit_def)

lemma destructor_Open:
  assumes "is_Open t"
  shows "destructor (t, w) =
           (t\<lparr>writer_ptr := None, file_ptr := None\<rparr>, w\<lparr>trace := trace w @ [RW_Destructor, File_Destructor]\<rparr>)"
  using assms unfolding is_Open_def destructor_def
  by (auto simp: emit_def)

lemma Close_sample: "Close ok_env (sample_writer, sample_world) = (True, closed_writer, closed_world)"
  by (simp add: Close_def ok_env_def sample_writer_def sample_world_def closed_writer_def
      closed_world_def emit_def)

subsection \<open>The handle invariant\<close>

lemma Close_handles_inv:
  assumes "Close e (t, w) = (r, t', w')" and "handles_inv t"
  shows "handles_inv t'"
  using assms unfolding Close_def handles_inv_def
  by (auto split: sum.splits option.splits if_splits)

lemma step_handles_inv:
  assumes "step e x (t, w) = (r, t', w')" and "handles_inv t"
  shows "handles_inv t'"
proof (cases x)
  case (OpWriteRecord rec)
  with assms show ?thesis by (auto split: option.splits)
next
  case OpFlush
  with assms show ?thesis by (auto split: option.splits)
next
  case OpClose
  with assms show ?thesis by (auto dest: Close_handles_inv)
qed

lemma run_handles_inv:
  "run e ops (t, w) = (rs, t', w') \<Longrightarrow> handles_inv t \<Longrightarrow> handles_inv t'"
proof (induction ops arbitrary: t w rs)
  case Nil
  then show ?case by simp
next
  case (Cons x xs)
  obtain r t1 w1 where st: "step e x (t, w) = (r, t1, w1)" by (cases "step e x (t, w)") auto
  obtain rs1 where rn: "run e xs (t1, w1) = (rs1, t', w')"
    using Cons.prems(1) st by (auto split: prod.splits)
  from step_handles_inv [OF st Cons.prems(2)] have "handles_inv t1" .
  from Cons.IH [OF rn this] show ?case .
qed

subsection \<open>The order invariant\<close>

lemma sink_after_filter_append:
  "sink_after_filter cl rel (xs @ ys) =
     (sink_after_filter cl rel xs \<and>
      sink_after_filter (cl \<or> RW_Close \<in> set xs) (rel \<or> RW_Destructor \<in> set xs) ys)"
proof (induction xs arbitrary: cl rel)
  case Nil
  show ?case by simp
next
  case (Cons c cs)
  show ?case by (cases c) (auto simp: Cons.IH)
qed

text \<open>What the scan says about the position of a file event in a trace.\<close>

lemma sink_after_filter_File_Close:
  assumes "sink_after_filter False False (pre @ File_Close # post)"
  shows "RW_Close \<in> set pre \<and> RW_Destructor \<in> set pre"
  using assms by (simp add: sink_after_filter_append)

lemma sink_after_filter_File_Destructor:
  assumes "sink_after_filter False False (pre @ File_Destructor # post)"
  shows "RW_Destructor \<in> set pre"
  using assms by (simp add: sink_after_filter_append)

lemma Close_order_inv:
  assumes "Close e (t, w) = (r, t', w')" and "order_inv (t, w)"
  shows "order_inv (t', w')"
  using assms unfolding Close_def order_inv_def
  by (auto simp: sink_after_filter_append split: sum.splits option.splits if_splits)

lemma step_order_inv:
  assumes "step e x (t, w) = (r, t', w')" and "order_inv (t, w)"
  shows "order_inv (t', w')"
proof (cases x)
  case (OpWriteRecord rec)
  with assms show ?thesis
    by (auto simp: order_inv_def sink_after_filter_append split: option.splits)
next
  case OpFlush
  with assms show ?thesis
    by (auto simp: order_inv_def sink_after_filter_append split: option.splits)
next
  case OpClose
  with assms show ?thesis by (auto dest: Close_order_inv)
qed

lemma run_order_inv:
  "run e ops (t, w) = (rs, t', w') \<Longrightarrow> order_inv (t, w) \<Longrightarrow> order_inv (t', w')"
proof (induction ops arbitrary: t w rs)
  case Nil
  then show ?case by simp
next
  case (Cons x xs)
  obtain r t1 w1 where st: "step e x (t, w) = (r, t1, w1)" by (cases "step e x (t, w)") auto
  obtain rs1 where rn: "run e xs (t1, w1) = (rs1, t', w')"
    using Cons.prems(1) st by (auto split: prod.splits)
  from step_order_inv [OF st Cons.prems(2)] have "order_inv (t1, w1)" .
  from Cons.IH [OF rn this] show ?case .
qed

lemma New_order_inv: "New e fn ct = (Some t, w) \<Longrightarrow> order_inv (t, w)"
  by (auto dest!: New_Some simp: order_inv_def)

lemma destructor_order:
  assumes "order_inv (t, w)"
  shows "sink_after_filter False False (trace (snd (destructor (t, w))))"
  using assms unfolding order_inv_def destructor_def
  by (auto simp: sink_after_filter_append split: option.splits)

subsection \<open>Little-endian bytes\<close>

lemma unat_byte: "unat (ucast (drop_bit m (x::'a::len word)) :: byte) = (unat x div 2 ^ m) mod 256"
proof -
  have "unat (ucast (drop_bit m x) :: byte) = take_bit 8 (unat (drop_bit m x))"
    by (simp add: unsigned_ucast_eq)
  also have "\<dots> = take_bit 8 (drop_bit m (unat x))"
    by (simp add: unat_drop_bit_eq)
  also have "\<dots> = (unat x div 2 ^ m) mod 256"
    by (simp add: take_bit_eq_mod drop_bit_eq_div)
  finally show ?thesis .
qed

lemma byte_split: "(a::nat) mod 256 + 256 * ((a div 256) mod 2 ^ (8 * n)) = a mod 2 ^ (8 * Suc n)"
proof -
  have "a mod (256 * 2 ^ (8 * n)) = 256 * ((a div 256) mod 2 ^ (8 * n)) + a mod 256"
    by (rule mod_mult2_eq)
  moreover have "(2::nat) ^ (8 * Suc n) = 256 * 2 ^ (8 * n)"
    by (simp add: power_add)
  ultimately show ?thesis by simp
qed

lemma le_value_map:
  "le_value (map (\<lambda>i. ucast (drop_bit (8 * i) (x::'a::len word))) [k..<k + n]) =
     (unat x div 2 ^ (8 * k)) mod 2 ^ (8 * n)"
proof (induction n arbitrary: k)
  case 0
  show ?case by simp
next
  case (Suc n)
  have upt: "[k..<k + Suc n] = k # [Suc k..<Suc k + n]"
    by (simp add: upt_conv_Cons)
  have dv: "unat x div 2 ^ (8 * Suc k) = (unat x div 2 ^ (8 * k)) div 256"
  proof -
    have "(2::nat) ^ (8 * Suc k) = 2 ^ (8 * k) * 256" by (simp add: power_add)
    then show ?thesis by (simp only: div_mult2_eq)
  qed
  have "le_value (map (\<lambda>i. ucast (drop_bit (8 * i) x)) [k..<k + Suc n]) =
          (unat x div 2 ^ (8 * k)) mod 256
          + 256 * le_value (map (\<lambda>i. ucast (drop_bit (8 * i) x)) [Suc k..<Suc k + n])"
    unfolding upt by (simp add: unat_byte)
  also have "\<dots> = (unat x div 2 ^ (8 * k)) mod 256
                   + 256 * (((unat x div 2 ^ (8 * k)) div 256) mod 2 ^ (8 * n))"
    by (simp only: Suc.IH dv)
  also have "\<dots> = (unat x div 2 ^ (8 * k)) mod 2 ^ (8 * Suc n)"
    by (rule byte_split)
  finally show ?case .
qed

lemma le_value_le_bytes: "le_value (le_bytes n (x::'a::len word)) = unat x mod 2 ^ (8 * n)"
  using le_value_map [of x 0 n] by (simp add: le_bytes_def)

lemma length_le_bytes [simp]: "length (le_bytes n x) = n"
  by (simp add: le_bytes_def)

lemma le_value_u64: "le_value (le_bytes 8 (x::64 word)) = unat x"
proof -
  have "unat x < 2 ^ 64" using unsigned_less [of x] by simp
  then show ?thesis by (simp add: le_value_le_bytes)
qed

lemma le_value_u32: "le_value (le_bytes 4 (x::32 word)) = unat x"
proof -
  have "unat x < 2 ^ 32" using unsigned_less [of x] by simp
  then show ?thesis by (simp add: le_value_le_bytes)
qed

lemma Encode_hello:
  "Encode (\<lambda>bs. of_nat (length bs)) (\<lambda>x. x + 1) [104, 105] = [2, 0, 0, 0, 0, 0, 0, 0, 9, 0, 0, 0, 104, 105, 3, 0, 0, 0]"
  by (simp add: Encode_def le_bytes_def Let_def upt_conv_Cons drop_bit_eq_div)

section \<open>The claims\<close>

subsection \<open>C1: the filter is finalized before the sink\<close>

text \<open>
  C1. For a writer made by \<open>New\<close> and driven by any sequence of \<open>WriteRecord\<close>,
  \<open>Flush\<close> and \<open>Close\<close> calls, with or without the destructor at the end, the trace of
  collaborator calls never closes or destroys the file before the filter: a
  \<open>File_Close\<close> comes only after \<open>RW_Close\<close> and \<open>RW_Destructor\<close>, a
  \<open>File_Destructor\<close> only after \<open>RW_Destructor\<close>. On an open writer \<open>Close\<close> calls, in
  this order, the filter's \<^verbatim>\<open>Close\<close>, the filter's destructor, the file's \<^verbatim>\<open>Close\<close> and
  the file's destructor, stopping at the first failing \<^verbatim>\<open>Close\<close>; the destructor of an
  open writer destroys the filter (which is where an unclosed filter finalizes itself)
  and then the file.
\<close>

theorem C1_filter_finalized_before_sink:
  assumes "New e filename ct = (Some t0, w0)" and "run e ops (t0, w0) = (rs, t, w)"
  shows "sink_after_filter False False (trace w)
       \<and> sink_after_filter False False (trace (snd (destructor (t, w))))
       \<and> (is_Open t \<longrightarrow>
            trace (snd (snd (Close e (t, w)))) =
              trace w @ (if \<not> ok (Close_status e (trace w)) then [RW_Close]
                         else if \<not> ok (FileClose_status e (trace w @ [RW_Close, RW_Destructor]))
                         then [RW_Close, RW_Destructor, File_Close]
                         else [RW_Close, RW_Destructor, File_Close, File_Destructor]))
       \<and> (is_Open t \<longrightarrow>
            trace (snd (destructor (t, w))) = trace w @ [RW_Destructor, File_Destructor])"
proof -
  have inv: "order_inv (t, w)"
    using run_order_inv [OF assms(2) New_order_inv [OF assms(1)]] .
  have a: "sink_after_filter False False (trace w)"
    using inv by (simp add: order_inv_def)
  have b: "sink_after_filter False False (trace (snd (destructor (t, w))))"
    using destructor_order [OF inv] .
  have c: "is_Open t \<Longrightarrow> trace (snd (snd (Close e (t, w)))) =
              trace w @ (if \<not> ok (Close_status e (trace w)) then [RW_Close]
                         else if \<not> ok (FileClose_status e (trace w @ [RW_Close, RW_Destructor]))
                         then [RW_Close, RW_Destructor, File_Close]
                         else [RW_Close, RW_Destructor, File_Close, File_Destructor])"
    by (simp add: Close_Open)
  have d: "is_Open t \<Longrightarrow> trace (snd (destructor (t, w))) = trace w @ [RW_Destructor, File_Destructor]"
    by (simp add: destructor_Open)
  from a b c d show ?thesis by blast
qed

text \<open>One record written on \<open>ok_env\<close>, then either \<open>Close\<close> or the destructor.\<close>

theorem C1_filter_finalized_before_sink_witness:
  "New ok_env ''out.tfrecord'' ''GZIP'' = (Some sample_writer, sample_world)
   \<and> run ok_env [OpWriteRecord [104, 105]] (sample_writer, sample_world) =
       ([True], sample_writer, emit (RW_WriteRecord [104, 105]) sample_world)
   \<and> is_Open sample_writer
   \<and> trace (snd (snd (Close ok_env (sample_writer, emit (RW_WriteRecord [104, 105]) sample_world)))) =
       [NewWritableFile ''out.tfrecord'', NewRecordWriter 0 ''GZIP'', RW_WriteRecord [104, 105],
        RW_Close, RW_Destructor, File_Close, File_Destructor]
   \<and> trace (snd (destructor (sample_writer, emit (RW_WriteRecord [104, 105]) sample_world))) =
       [NewWritableFile ''out.tfrecord'', NewRecordWriter 0 ''GZIP'', RW_WriteRecord [104, 105],
        RW_Destructor, File_Destructor]
   \<and> sink_after_filter False False
       [NewWritableFile ''out.tfrecord'', NewRecordWriter 0 ''GZIP'', RW_WriteRecord [104, 105],
        RW_Destructor, File_Destructor]"
proof -
  have h1: "New ok_env ''out.tfrecord'' ''GZIP'' = (Some sample_writer, sample_world)"
    by (rule New_sample)
  have h2: "run ok_env [OpWriteRecord [104, 105]] (sample_writer, sample_world) =
       ([True], sample_writer, emit (RW_WriteRecord [104, 105]) sample_world)"
    by (simp add: sample_writer_def ok_env_def)
  have h3: "is_Open sample_writer"
    by (simp add: is_Open_def sample_writer_def)
  have tr: "trace (emit (RW_WriteRecord [104, 105]) sample_world) =
      [NewWritableFile ''out.tfrecord'', NewRecordWriter 0 ''GZIP'', RW_WriteRecord [104, 105]]"
    by (simp add: sample_world_def)
  have st: "ok (Close_status ok_env tr1) \<and> ok (FileClose_status ok_env tr2)" for tr1 tr2
    by (simp add: ok_env_def)
  from C1_filter_finalized_before_sink [OF h1 h2] h1 h2 h3 tr st
  show ?thesis by simp
qed

subsection \<open>C2: the sink's close fails after the filter closed\<close>

text \<open>
  The claim C2 as stated fails: on \<open>sink_close_fails_env\<close> the first \<open>Close\<close> returns
  \<^verbatim>\<open>false\<close> at line 97, before line 99 resets \<^verbatim>\<open>file_\<close>. The file handle is still held,
  and a second \<open>Close\<close> calls the file's \<^verbatim>\<open>Close\<close> once more.
\<close>

theorem C2_counterexample:
  "New sink_close_fails_env ''out.tfrecord'' ''GZIP'' = (Some sample_writer, sample_world)
   \<and> is_Open sample_writer
   \<and> ok (Close_status sink_close_fails_env (trace sample_world))
   \<and> \<not> ok (FileClose_status sink_close_fails_env (trace sample_world @ [RW_Close, RW_Destructor]))
   \<and> fst (Close sink_close_fails_env (sample_writer, sample_world)) = False
   \<and> file_ptr (fst (snd (Close sink_close_fails_env (sample_writer, sample_world)))) = Some 0
   \<and> \<not> is_Closed (fst (snd (Close sink_close_fails_env (sample_writer, sample_world))))
   \<and> trace (snd (snd (Close sink_close_fails_env
                        (snd (Close sink_close_fails_env (sample_writer, sample_world)))))) =
       [NewWritableFile ''out.tfrecord'', NewRecordWriter 0 ''GZIP'',
        RW_Close, RW_Destructor, File_Close, File_Close]"
proof -
  have o: "is_Open sample_writer"
    by (simp add: is_Open_def sample_writer_def)
  have st: "ok (Close_status sink_close_fails_env tr1)
            \<and> \<not> ok (FileClose_status sink_close_fails_env tr2)" for tr1 tr2
    by (simp add: sink_close_fails_env_def ok_env_def)
  have c1: "Close sink_close_fails_env (sample_writer, sample_world) =
      (False, sample_writer\<lparr>writer_ptr := None\<rparr>,
       sample_world\<lparr>trace := trace sample_world @ [RW_Close, RW_Destructor, File_Close]\<rparr>)"
    by (simp add: Close_Open [OF o] st)
  have c2: "Close sink_close_fails_env (sample_writer\<lparr>writer_ptr := None\<rparr>,
       sample_world\<lparr>trace := trace sample_world @ [RW_Close, RW_Destructor, File_Close]\<rparr>) =
      (False, sample_writer\<lparr>writer_ptr := None\<rparr>,
       sample_world\<lparr>trace := trace sample_world @ [RW_Close, RW_Destructor, File_Close, File_Close]\<rparr>)"
    by (simp add: Close_def st sample_writer_def emit_def)
  show ?thesis
    by (simp add: New_sample_sink_fails o st c1 c2) (simp add: sample_writer_def sample_world_def is_Closed_def)
qed

text \<open>
  C2, amended. For an open writer, if the filter closes and the file's \<^verbatim>\<open>Close\<close> then
  fails, \<open>Close\<close> returns \<^verbatim>\<open>false\<close>; afterwards the filter handle is null and the file
  handle is the one held before. A retried \<open>Close\<close> makes no call on the filter (no
  second close of the filter) and calls the file's \<^verbatim>\<open>Close\<close> again, destroying the file
  only if that call succeeds.
\<close>

theorem C2_partial_close_keeps_sink:
  assumes "is_Open this" and "ok (Close_status e (trace w))"
    and "\<not> ok (FileClose_status e (trace w @ [RW_Close, RW_Destructor]))"
  shows "Close e (this, w) =
           (False, this\<lparr>writer_ptr := None\<rparr>,
            w\<lparr>trace := trace w @ [RW_Close, RW_Destructor, File_Close]\<rparr>)
       \<and> file_ptr (fst (snd (Close e (this, w)))) = file_ptr this
       \<and> file_ptr this \<noteq> None
       \<and> trace (snd (snd (Close e (snd (Close e (this, w)))))) =
           trace w @ [RW_Close, RW_Destructor, File_Close] @
             (if ok (FileClose_status e (trace w @ [RW_Close, RW_Destructor, File_Close]))
              then [File_Close, File_Destructor] else [File_Close])"
proof -
  have c1: "Close e (this, w) =
           (False, this\<lparr>writer_ptr := None\<rparr>,
            w\<lparr>trace := trace w @ [RW_Close, RW_Destructor, File_Close]\<rparr>)"
    using assms by (simp add: Close_Open)
  have f: "file_ptr this \<noteq> None"
    using assms(1) by (simp add: is_Open_def)
  have c2: "trace (snd (snd (Close e (this\<lparr>writer_ptr := None\<rparr>,
            w\<lparr>trace := trace w @ [RW_Close, RW_Destructor, File_Close]\<rparr>)))) =
           trace w @ [RW_Close, RW_Destructor, File_Close] @
             (if ok (FileClose_status e (trace w @ [RW_Close, RW_Destructor, File_Close]))
              then [File_Close, File_Destructor] else [File_Close])"
    using f by (auto simp: Close_def emit_def)
  show ?thesis
    by (simp only: c1 c2 f snd_conv fst_conv) simp
qed

theorem C2_partial_close_keeps_sink_witness:
  "is_Open sample_writer
   \<and> ok (Close_status sink_close_fails_env (trace sample_world))
   \<and> \<not> ok (FileClose_status sink_close_fails_env (trace sample_world @ [RW_Close, RW_Destructor]))
   \<and> Close sink_close_fails_env (sample_writer, sample_world) =
       (False, sample_writer\<lparr>writer_ptr := None\<rparr>,
        sample_world\<lparr>trace := trace sample_world @ [RW_Close, RW_Destructor, File_Close]\<rparr>)
   \<and> file_ptr (fst (snd (Close sink_close_fails_env (sample_writer, sample_world)))) = Some 0"
proof -
  have h1: "is_Open sample_writer"
    by (simp add: is_Open_def sample_writer_def)
  have h2: "ok (Close_status sink_close_fails_env (trace sample_world))"
    by (simp add: sink_close_fails_env_def ok_env_def)
  have h3: "\<not> ok (FileClose_status sink_close_fails_env (trace sample_world @ [RW_Close, RW_Destructor]))"
    by (simp add: sink_close_fails_env_def ok_env_def)
  have f: "file_ptr sample_writer = Some 0"
    by (simp add: sample_writer_def)
  from C2_partial_close_keeps_sink [OF h1 h2 h3] h1 h2 h3 f
  show ?thesis by simp
qed

subsection \<open>C3: an unrecognized compression string\<close>

text \<open>
  The claim C3 as stated fails: \<^verbatim>\<open>"BOGUS"\<close> is none of the three recognized strings, and
  \<open>New\<close> returns a writer built with the options made from it.
\<close>

theorem C3_counterexample:
  "\<not> recognized_compression ''BOGUS''
   \<and> New ok_env ''out.tfrecord'' ''BOGUS'' =
       (Some \<lparr>file_ptr = Some 0, writer_ptr = Some \<lparr>rw_dest = 0, rw_options = ''BOGUS''\<rparr>\<rparr>,
        \<lparr>trace = [NewWritableFile ''out.tfrecord'', NewRecordWriter 0 ''BOGUS''], log = []\<rparr>)"
  by (simp add: recognized_compression_def New_def Let_def ok_env_def)

text \<open>
  C3, amended. \<open>New\<close> never inspects the compression string: it returns no writer
  exactly when \<^verbatim>\<open>NewWritableFile\<close> fails, and whenever the file is created it returns,
  for every string, a writer whose filter is built on that file with the options that
  \<^verbatim>\<open>CreateRecordWriterOptions\<close> makes from the string.
\<close>

theorem C3_compression_string_unchecked:
  "(fst (New e filename ct) = None) = isl (NewWritableFile_result e filename)
   \<and> (NewWritableFile_result e filename = Inr f \<longrightarrow>
        New e filename ct =
          (Some \<lparr>file_ptr = Some f,
                 writer_ptr = Some \<lparr>rw_dest = f, rw_options = CreateRecordWriterOptions e ct\<rparr>\<rparr>,
           \<lparr>trace = [NewWritableFile filename, NewRecordWriter f (CreateRecordWriterOptions e ct)],
              log = []\<rparr>))"
  by (auto simp: New_def Let_def split: sum.splits)

theorem C3_compression_string_unchecked_witness:
  "NewWritableFile_result ok_env ''out.tfrecord'' = Inr 0
   \<and> \<not> recognized_compression ''BOGUS''
   \<and> fst (New ok_env ''out.tfrecord'' ''BOGUS'') =
       Some \<lparr>file_ptr = Some 0, writer_ptr = Some \<lparr>rw_dest = 0, rw_options = ''BOGUS''\<rparr>\<rparr>"
proof -
  have h1: "NewWritableFile_result ok_env ''out.tfrecord'' = Inr 0"
    by (simp add: ok_env_def)
  have h2: "\<not> recognized_compression ''BOGUS''"
    by (simp add: recognized_compression_def)
  have h3: "CreateRecordWriterOptions ok_env ''BOGUS'' = ''BOGUS''"
    by (simp add: ok_env_def)
  from C3_compression_string_unchecked [of ok_env "''out.tfrecord''" "''BOGUS''" 0] h1 h2 h3
  show ?thesis by simp
qed

subsection \<open>C4: closing a closed writer\<close>

text \<open>
  C4. \<open>Close\<close> on a writer whose two handles are null returns \<^verbatim>\<open>true\<close> and changes
  nothing, neither the writer nor the trace; so a \<open>Close\<close> that returned \<^verbatim>\<open>true\<close> is
  followed by a \<open>Close\<close> that returns \<^verbatim>\<open>true\<close> too.
\<close>

theorem C4_close_idempotent:
  "(is_Closed this \<longrightarrow> Close e (this, w) = (True, this, w))
   \<and> (Close e s = (True, s1) \<longrightarrow> Close e s1 = (True, s1))"
proof -
  have "Close e s1 = (True, s1)" if "Close e s = (True, s1)"
  proof -
    obtain t1 w1 where s1: "s1 = (t1, w1)" by (cases s1)
    from that have "is_Closed t1" unfolding s1 by (rule Close_True_is_Closed)
    then show ?thesis unfolding s1 by (rule Close_Closed)
  qed
  then show ?thesis by (simp add: Close_Closed)
qed

theorem C4_close_idempotent_witness:
  "Close ok_env (sample_writer, sample_world) = (True, closed_writer, closed_world)
   \<and> is_Closed closed_writer
   \<and> Close ok_env (closed_writer, closed_world) = (True, closed_writer, closed_world)
   \<and> run ok_env [OpClose, OpClose] (sample_writer, sample_world) =
       ([True, True], closed_writer, closed_world)"
proof -
  have h1: "Close ok_env (sample_writer, sample_world) = (True, closed_writer, closed_world)"
    by (rule Close_sample)
  have h2: "is_Closed closed_writer"
    by (simp add: is_Closed_def closed_writer_def)
  from C4_close_idempotent [of closed_writer ok_env closed_world
      "(sample_writer, sample_world)" "(closed_writer, closed_world)"] h1 h2
  show ?thesis by simp
qed

subsection \<open>C5: no I/O after close\<close>

text \<open>
  C5. Once \<open>Close\<close> has returned \<^verbatim>\<open>true\<close>, and whatever is called after it,
  \<open>WriteRecord\<close> and \<open>Flush\<close> return \<^verbatim>\<open>false\<close> and leave the writer and the trace of
  collaborator calls as they were: no call reaches the filter or the file.
\<close>

theorem C5_no_io_after_close:
  assumes "Close e s = (True, s1)" and "run e ops s1 = (rs, s2)"
  shows "WriteRecord e rec s2 = (False, s2) \<and> Flush e s2 = (False, s2) \<and> s2 = s1"
proof -
  obtain t1 w1 where s1: "s1 = (t1, w1)" by (cases s1)
  from assms(1) have cl: "is_Closed t1" unfolding s1 by (rule Close_True_is_Closed)
  from assms(2) have "s2 = s1" unfolding s1 by (simp add: run_Closed [OF cl])
  moreover have "writer_ptr t1 = None" using cl by (simp add: is_Closed_def)
  ultimately show ?thesis unfolding s1 by simp
qed

theorem C5_no_io_after_close_witness:
  "Close ok_env (sample_writer, sample_world) = (True, closed_writer, closed_world)
   \<and> run ok_env [OpFlush, OpClose] (closed_writer, closed_world) =
       ([False, True], closed_writer, closed_world)
   \<and> WriteRecord ok_env [104, 105] (closed_writer, closed_world) =
       (False, closed_writer, closed_world)
   \<and> Flush ok_env (closed_writer, closed_world) = (False, closed_writer, closed_world)"
proof -
  have h1: "Close ok_env (sample_writer, sample_world) = (True, closed_writer, closed_world)"
    by (rule Close_sample)
  have h2: "run ok_env [OpFlush, OpClose] (closed_writer, closed_world) =
       ([False, True], closed_writer, closed_world)"
    by (simp add: closed_writer_def Close_def)
  from C5_no_io_after_close [OF h1 h2, of "[104, 105]"] h1 h2
  show ?thesis by simp
qed

subsection \<open>C6: a failed write leaves the writer open\<close>

text \<open>
  C6. On an open writer, when the filter's \<^verbatim>\<open>WriteRecord\<close> fails, \<open>WriteRecord\<close> returns
  \<^verbatim>\<open>false\<close>, the writer object is unchanged (both handles still set), and the next
  \<open>WriteRecord\<close> is passed to the filter again and returns whatever the filter answers.
\<close>

theorem C6_failed_write_keeps_open:
  assumes "is_Open this" and "\<not> ok (WriteRecord_status e (trace w) rec)"
  shows "WriteRecord e rec (this, w) = (False, this, emit (RW_WriteRecord rec) w)
       \<and> is_Open (fst (snd (WriteRecord e rec (this, w))))
       \<and> WriteRecord e rec2 (snd (WriteRecord e rec (this, w))) =
           (ok (WriteRecord_status e (trace w @ [RW_WriteRecord rec]) rec2), this,
            emit (RW_WriteRecord rec2) (emit (RW_WriteRecord rec) w))"
  using assms by (auto simp: is_Open_def)

text \<open>On \<open>write_fails_once_env\<close> the first write fails and the second succeeds.\<close>

theorem C6_failed_write_keeps_open_witness:
  "is_Open sample_writer
   \<and> \<not> ok (WriteRecord_status write_fails_once_env (trace sample_world) [104, 105])
   \<and> WriteRecord write_fails_once_env [104, 105] (sample_writer, sample_world) =
       (False, sample_writer, emit (RW_WriteRecord [104, 105]) sample_world)
   \<and> WriteRecord write_fails_once_env [119]
        (snd (WriteRecord write_fails_once_env [104, 105] (sample_writer, sample_world))) =
       (True, sample_writer, emit (RW_WriteRecord [119]) (emit (RW_WriteRecord [104, 105]) sample_world))"
proof -
  have h1: "is_Open sample_writer"
    by (simp add: is_Open_def sample_writer_def)
  have h2: "\<not> ok (WriteRecord_status write_fails_once_env (trace sample_world) [104, 105])"
    by (simp add: write_fails_once_env_def sample_world_def)
  have h3: "ok (WriteRecord_status write_fails_once_env
                  (trace sample_world @ [RW_WriteRecord [104, 105]]) [119])"
    by (simp add: write_fails_once_env_def sample_world_def)
  note c = C6_failed_write_keeps_open [OF h1 h2, of "[119]"]
  from c have c1: "WriteRecord write_fails_once_env [104, 105] (sample_writer, sample_world) =
       (False, sample_writer, emit (RW_WriteRecord [104, 105]) sample_world)"
    by (rule conjunct1)
  from c have "WriteRecord write_fails_once_env [119]
        (snd (WriteRecord write_fails_once_env [104, 105] (sample_writer, sample_world))) =
       (ok (WriteRecord_status write_fails_once_env
              (trace sample_world @ [RW_WriteRecord [104, 105]]) [119]), sample_writer,
        emit (RW_WriteRecord [119]) (emit (RW_WriteRecord [104, 105]) sample_world))"
    by blast
  with h3 have c3: "WriteRecord write_fails_once_env [119]
        (snd (WriteRecord write_fails_once_env [104, 105] (sample_writer, sample_world))) =
       (True, sample_writer,
        emit (RW_WriteRecord [119]) (emit (RW_WriteRecord [104, 105]) sample_world))"
    by (simp only: simp_thms)
  from h1 h2 c1 c3 show ?thesis by blast
qed

subsection \<open>C7: a writer or nothing\<close>

text \<open>
  The claim C7 as stated fails in its part "if resolving the Compression Filter fails,
  Open returns a construction error": the specification (sections 4.2 and 7) counts an
  unrecognized compression string as such a failure, \<^verbatim>\<open>"gzip"\<close> in lower case is
  unrecognized, and \<open>New\<close> returns a writer for it, not \<^verbatim>\<open>nullptr\<close>. The part "no
  partially initialized writer" is not what fails: the writer returned has both handles.
\<close>

theorem C7_counterexample:
  "\<not> recognized_compression ''gzip''
   \<and> \<not> ((isl (NewWritableFile_result ok_env ''out.tfrecord'') \<or> \<not> recognized_compression ''gzip'')
          \<longrightarrow> fst (New ok_env ''out.tfrecord'' ''gzip'') = None)
   \<and> New ok_env ''out.tfrecord'' ''gzip'' =
       (Some \<lparr>file_ptr = Some 0, writer_ptr = Some \<lparr>rw_dest = 0, rw_options = ''gzip''\<rparr>\<rparr>,
        \<lparr>trace = [NewWritableFile ''out.tfrecord'', NewRecordWriter 0 ''gzip''], log = []\<rparr>)"
  by (simp add: recognized_compression_def New_def Let_def ok_env_def)

text \<open>
  C7, amended. For every destination and every compression string: if
  \<^verbatim>\<open>NewWritableFile\<close> fails, \<open>New\<close> returns \<^verbatim>\<open>nullptr\<close> (and logs the message), so no
  writer is exposed; if the file is created, \<open>New\<close> returns a writer whatever the
  compression string is, since building the filter has no failing outcome. So \<open>New\<close>
  fails exactly when \<^verbatim>\<open>NewWritableFile\<close> fails. Every writer that \<open>New\<close> returns is
  fully initialized and open: both handles set, the filter built on the file that was
  just created, with the options made from the string.
\<close>

theorem C7_no_partial_writer:
  "(NewWritableFile_result e filename = Inl msg \<longrightarrow>
      New e filename ct = (None, \<lparr>trace = [NewWritableFile filename], log = [msg]\<rparr>))
   \<and> (NewWritableFile_result e filename = Inr f \<longrightarrow>
        New e filename ct =
          (Some \<lparr>file_ptr = Some f,
                 writer_ptr = Some \<lparr>rw_dest = f, rw_options = CreateRecordWriterOptions e ct\<rparr>\<rparr>,
           \<lparr>trace = [NewWritableFile filename, NewRecordWriter f (CreateRecordWriterOptions e ct)],
              log = []\<rparr>)
        \<and> is_Open \<lparr>file_ptr = Some f,
                    writer_ptr = Some \<lparr>rw_dest = f, rw_options = CreateRecordWriterOptions e ct\<rparr>\<rparr>)
   \<and> (fst (New e filename ct) = None) = isl (NewWritableFile_result e filename)
   \<and> (New e filename ct = (Some t, w) \<longrightarrow>
        is_Open t
        \<and> (\<exists>f. NewWritableFile_result e filename = Inr f \<and> file_ptr t = Some f
                \<and> writer_ptr t = Some \<lparr>rw_dest = f, rw_options = CreateRecordWriterOptions e ct\<rparr>))"
proof -
  have a: "New e filename ct = (None, \<lparr>trace = [NewWritableFile filename], log = [msg]\<rparr>)"
    if "NewWritableFile_result e filename = Inl msg"
    using that by (simp add: New_def)
  have b: "New e filename ct =
          (Some \<lparr>file_ptr = Some f,
                 writer_ptr = Some \<lparr>rw_dest = f, rw_options = CreateRecordWriterOptions e ct\<rparr>\<rparr>,
           \<lparr>trace = [NewWritableFile filename, NewRecordWriter f (CreateRecordWriterOptions e ct)],
              log = []\<rparr>)
        \<and> is_Open \<lparr>file_ptr = Some f,
                    writer_ptr = Some \<lparr>rw_dest = f, rw_options = CreateRecordWriterOptions e ct\<rparr>\<rparr>"
    if "NewWritableFile_result e filename = Inr f"
    using that by (simp add: New_def Let_def is_Open_def)
  have c: "(fst (New e filename ct) = None) = isl (NewWritableFile_result e filename)"
    by (cases "NewWritableFile_result e filename") (simp_all add: New_def Let_def)
  have d: "is_Open t \<and> (\<exists>f. NewWritableFile_result e filename = Inr f \<and> file_ptr t = Some f
                \<and> writer_ptr t = Some \<lparr>rw_dest = f, rw_options = CreateRecordWriterOptions e ct\<rparr>)"
    if "New e filename ct = (Some t, w)"
    using New_Some [OF that] by (auto simp: is_Open_def)
  from a b c d show ?thesis by blast
qed

text \<open>
  The file cannot be created: nothing is returned. The file is created and the string
  is unrecognized: an open writer is returned.
\<close>

theorem C7_no_partial_writer_witness:
  "NewWritableFile_result no_file_env ''/nowhere/out'' = Inl ''permission denied''
   \<and> New no_file_env ''/nowhere/out'' ''ZLIB'' =
       (None, \<lparr>trace = [NewWritableFile ''/nowhere/out''], log = [''permission denied'']\<rparr>)
   \<and> NewWritableFile_result ok_env ''out.tfrecord'' = Inr 0
   \<and> \<not> recognized_compression ''gzip''
   \<and> New ok_env ''out.tfrecord'' ''gzip'' =
       (Some \<lparr>file_ptr = Some 0, writer_ptr = Some \<lparr>rw_dest = 0, rw_options = ''gzip''\<rparr>\<rparr>,
        \<lparr>trace = [NewWritableFile ''out.tfrecord'', NewRecordWriter 0 ''gzip''], log = []\<rparr>)
   \<and> is_Open \<lparr>file_ptr = Some 0, writer_ptr = Some \<lparr>rw_dest = 0, rw_options = ''gzip''\<rparr>\<rparr>
   \<and> New ok_env ''out.tfrecord'' ''GZIP'' = (Some sample_writer, sample_world)
   \<and> is_Open sample_writer"
proof -
  have h1: "NewWritableFile_result no_file_env ''/nowhere/out'' = Inl ''permission denied''"
    by (simp add: no_file_env_def ok_env_def)
  have h2: "NewWritableFile_result ok_env ''out.tfrecord'' = Inr 0"
    by (simp add: ok_env_def)
  have h3: "\<not> recognized_compression ''gzip''"
    by (simp add: recognized_compression_def)
  have h4: "New ok_env ''out.tfrecord'' ''GZIP'' = (Some sample_writer, sample_world)"
    by (rule New_sample)
  have o: "CreateRecordWriterOptions ok_env ''gzip'' = ''gzip''"
    by (simp add: ok_env_def)
  from C7_no_partial_writer [of no_file_env "''/nowhere/out''" "''permission denied''" "''ZLIB''"] h1
  have a: "New no_file_env ''/nowhere/out'' ''ZLIB'' =
       (None, \<lparr>trace = [NewWritableFile ''/nowhere/out''], log = [''permission denied'']\<rparr>)"
    by blast
  from C7_no_partial_writer [of ok_env "''out.tfrecord''" _ "''gzip''" 0] h2
  have "New ok_env ''out.tfrecord'' ''gzip'' =
          (Some \<lparr>file_ptr = Some 0,
                 writer_ptr = Some \<lparr>rw_dest = 0, rw_options = CreateRecordWriterOptions ok_env ''gzip''\<rparr>\<rparr>,
           \<lparr>trace = [NewWritableFile ''out.tfrecord'',
                      NewRecordWriter 0 (CreateRecordWriterOptions ok_env ''gzip'')],
              log = []\<rparr>)
        \<and> is_Open \<lparr>file_ptr = Some 0,
                    writer_ptr = Some \<lparr>rw_dest = 0, rw_options = CreateRecordWriterOptions ok_env ''gzip''\<rparr>\<rparr>"
    by blast
  then have b: "New ok_env ''out.tfrecord'' ''gzip'' =
       (Some \<lparr>file_ptr = Some 0, writer_ptr = Some \<lparr>rw_dest = 0, rw_options = ''gzip''\<rparr>\<rparr>,
        \<lparr>trace = [NewWritableFile ''out.tfrecord'', NewRecordWriter 0 ''gzip''], log = []\<rparr>)
      \<and> is_Open \<lparr>file_ptr = Some 0, writer_ptr = Some \<lparr>rw_dest = 0, rw_options = ''gzip''\<rparr>\<rparr>"
    by (simp only: o)
  from C7_no_partial_writer [of ok_env "''out.tfrecord''" _ "''GZIP''" _ sample_writer sample_world] h4
  have c: "is_Open sample_writer"
    by blast
  from h1 h2 h3 h4 a b c show ?thesis by blast
qed

subsection \<open>C8: the layout of a frame\<close>

text \<open>
  C8. For every payload \<open>p\<close>, the empty one included, \<open>Encode\<close> gives
  \<open>8 + 4 + length p + 4\<close> bytes: the length as a little-endian 64-bit integer, the
  masked checksum of those eight bytes as a little-endian 32-bit integer, the payload
  itself, and the masked checksum of the payload as a little-endian 32-bit integer.
\<close>

theorem C8_frame_layout:
  "length (Encode crc32c masked p) = 8 + 4 + length p + 4
   \<and> take 8 (Encode crc32c masked p) = le_bytes 8 (of_nat (length p) :: 64 word)
   \<and> le_value (take 8 (Encode crc32c masked p)) = length p mod 2 ^ 64
   \<and> take 4 (drop 8 (Encode crc32c masked p)) =
       le_bytes 4 (masked (crc32c (take 8 (Encode crc32c masked p))))
   \<and> le_value (take 4 (drop 8 (Encode crc32c masked p))) =
       unat (masked (crc32c (take 8 (Encode crc32c masked p))))
   \<and> take (length p) (drop (8 + 4) (Encode crc32c masked p)) = p
   \<and> drop (8 + 4 + length p) (Encode crc32c masked p) = le_bytes 4 (masked (crc32c p))
   \<and> le_value (drop (8 + 4 + length p) (Encode crc32c masked p)) = unat (masked (crc32c p))"
  by (simp add: Encode_def Let_def le_value_u64 le_value_u32 unat_of_nat take_bit_eq_mod)

subsection \<open>C9: the filter never outlives the sink handle\<close>

text \<open>
  C9. For a writer made by \<open>New\<close>, after any sequence of \<open>WriteRecord\<close>, \<open>Flush\<close> and
  \<open>Close\<close> calls: if the filter handle is not null, the file handle is not null.
\<close>

theorem C9_filter_needs_sink:
  assumes "New e filename ct = (Some t0, w0)" and "run e ops (t0, w0) = (rs, t, w)"
  shows "writer_ptr t \<noteq> None \<longrightarrow> file_ptr t \<noteq> None"
proof -
  have "handles_inv t0"
    using New_Some [OF assms(1)] by (auto simp: handles_inv_def)
  from run_handles_inv [OF assms(2) this] show ?thesis
    by (simp add: handles_inv_def)
qed

theorem C9_filter_needs_sink_witness:
  "New ok_env ''out.tfrecord'' ''GZIP'' = (Some sample_writer, sample_world)
   \<and> run ok_env [OpWriteRecord [104, 105], OpFlush] (sample_writer, sample_world) =
       ([True, True], sample_writer, emit RW_Flush (emit (RW_WriteRecord [104, 105]) sample_world))
   \<and> writer_ptr sample_writer \<noteq> None \<and> file_ptr sample_writer \<noteq> None"
proof -
  have h1: "New ok_env ''out.tfrecord'' ''GZIP'' = (Some sample_writer, sample_world)"
    by (rule New_sample)
  have h2: "run ok_env [OpWriteRecord [104, 105], OpFlush] (sample_writer, sample_world) =
       ([True, True], sample_writer, emit RW_Flush (emit (RW_WriteRecord [104, 105]) sample_world))"
    by (simp add: sample_writer_def ok_env_def)
  have h3: "writer_ptr sample_writer \<noteq> None"
    by (simp add: sample_writer_def)
  from C9_filter_needs_sink [OF h1 h2] h1 h2 h3
  show ?thesis by simp
qed

subsection \<open>C10: closed for good\<close>

text \<open>
  C10. When \<open>Close\<close> returns \<^verbatim>\<open>true\<close> both handles are null; from then on every
  \<open>WriteRecord\<close> and \<open>Flush\<close> returns \<^verbatim>\<open>false\<close>, every \<open>Close\<close> returns \<^verbatim>\<open>true\<close>, and
  the writer and the trace stay as they are.
\<close>

theorem C10_closed_is_permanent:
  assumes "Close e s = (True, this, w)"
  shows "is_Closed this \<and> run e ops (this, w) = (map (\<lambda>x. x = OpClose) ops, this, w)"
proof -
  from assms have cl: "is_Closed this" by (rule Close_True_is_Closed)
  with run_Closed [OF cl] show ?thesis by simp
qed

theorem C10_closed_is_permanent_witness:
  "Close ok_env (sample_writer, sample_world) = (True, closed_writer, closed_world)
   \<and> is_Closed closed_writer
   \<and> run ok_env [OpWriteRecord [104, 105], OpFlush, OpClose, OpWriteRecord []]
        (closed_writer, closed_world) = ([False, False, True, False], closed_writer, closed_world)"
proof -
  have h1: "Close ok_env (sample_writer, sample_world) = (True, closed_writer, closed_world)"
    by (rule Close_sample)
  from C10_closed_is_permanent [OF h1,
      of "[OpWriteRecord [104, 105], OpFlush, OpClose, OpWriteRecord []]"] h1
  show ?thesis by simp
qed

end
